theory Spec2Isabelle
  imports Complex_Main "HOL-Library.AList" "HOL-Library.DAList"
begin

section \<open>The cart store of the cafe bot: enhanced_cart_manager.py\<close>

text \<open>
  \<^verbatim>\<open>CartManager\<close> keeps one Python dict, \<^verbatim>\<open>self.carts\<close>, from user ids to cart
  dicts. A cart dict has the keys \<^verbatim>\<open>'items'\<close> (a dict from item ids to quantities),
  \<^verbatim>\<open>'created_at'\<close> and \<^verbatim>\<open>'updated_at'\<close>; the code tests for the presence of
  \<^verbatim>\<open>'items'\<close> and \<^verbatim>\<open>'created_at'\<close>, so each key is optional in the model.

  Python dicts are objects: \<^verbatim>\<open>self.carts.get(user_id, default)\<close> hands out the stored
  cart itself, not a copy, and a write through the local variable \<^verbatim>\<open>cart\<close> is a write
  to the stored cart. The model therefore has an explicit heap of cart objects, and
  \<^verbatim>\<open>self.carts\<close> maps a user id to the address of its cart. The inner \<^verbatim>\<open>'items'\<close>
  dict is reachable through its cart only, so it is kept as a value inside the cart object.
\<close>

subsection \<open>Data\<close>

type_synonym user_id = int
type_synonym item_id = string
type_synonym timestamp = string
type_synonym ref = nat

text \<open>The \<open>k\<close>-th reading of \<^verbatim>\<open>datetime.now().isoformat()\<close> within one call.\<close>
type_synonym clock = "nat \<Rightarrow> timestamp"

text \<open>An \<^verbatim>\<open>'items'\<close> dict: distinct keys, in insertion order.\<close>
type_synonym items_dict = "(item_id, int) alist"

record cart =
  items :: "items_dict option"
  created_at :: "timestamp option"
  updated_at :: "timestamp option"

record state =
  carts :: "user_id \<rightharpoonup> ref"
  heap :: "ref \<Rightarrow> cart"
  next_ref :: ref

definition empty_dict :: cart where
  "empty_dict = \<lparr>items = None, created_at = None, updated_at = None\<rparr>"

text \<open>\<^verbatim>\<open>__init__\<close>: \<^verbatim>\<open>self.carts = {}\<close>; nothing is allocated yet.\<close>
definition init_state :: state where
  "init_state = \<lparr>carts = Map.empty, heap = (\<lambda>_. empty_dict), next_ref = 0\<rparr>"

text \<open>\<^verbatim>\<open>len(d)\<close> of an items dict.\<close>
definition len :: "items_dict \<Rightarrow> int" where
  "len d = int (length (DAList.impl_of d))"

subsection \<open>Operations\<close>

text \<open>
  The dict literal that \<^verbatim>\<open>get_cart\<close> passes as the default of \<^verbatim>\<open>dict.get\<close>. Python
  evaluates the argument before the call, so the object is built on every call, also
  when the user already has a cart.
\<close>
definition default_cart :: "clock \<Rightarrow> cart" where
  "default_cart clk =
     \<lparr>items = Some DAList.empty, created_at = Some (clk 0), updated_at = Some (clk 1)\<rparr>"

text \<open>
  \<^verbatim>\<open>get_cart\<close> returns the address of the stored cart when \<^verbatim>\<open>user_id\<close> is a key of
  \<^verbatim>\<open>self.carts\<close>, and the address of the new default dict otherwise. It does not store
  the default. With an integer key \<^verbatim>\<open>dict.get\<close> cannot raise, so the \<^verbatim>\<open>except\<close>
  branch is never taken.
\<close>
definition get_cart :: "clock \<Rightarrow> user_id \<Rightarrow> state \<Rightarrow> ref \<times> state" where
  "get_cart clk user_id s =
     (let d = next_ref s;
          s1 = s\<lparr>heap := (heap s)(d := default_cart clk), next_ref := d + 1\<rparr>
      in (case carts s user_id of Some r \<Rightarrow> r | None \<Rightarrow> d, s1))"

text \<open>
  \<^verbatim>\<open>add_item(user_id, item_id, quantity)\<close>, with the imported constant
  \<^verbatim>\<open>MAX_CART_ITEMS\<close> as a parameter. Lines 39 to 46 write to the object \<^verbatim>\<open>cart\<close>
  refers to; the check of line 49 comes after these writes, and line 59 alone stores the
  address under \<^verbatim>\<open>user_id\<close>. Both exits commit the writes made so far to the heap.
  On integers none of the statements raises.
\<close>
definition add_item ::
  "int \<Rightarrow> clock \<Rightarrow> user_id \<Rightarrow> item_id \<Rightarrow> int \<Rightarrow> state \<Rightarrow> bool \<times> state" where
  "add_item MAX_CART_ITEMS clk user_id item_id quantity s =
     (let (cart, s1) = get_cart clk user_id s;
          c = heap s1 cart;
          its = (case items c of Some d \<Rightarrow> d | None \<Rightarrow> DAList.empty);
          its' = (case DAList.lookup its item_id of
                    Some n \<Rightarrow> DAList.update item_id (n + quantity) its
                  | None \<Rightarrow> DAList.update item_id quantity its);
          c1 = c\<lparr>items := Some its'\<rparr>
      in if len its' > MAX_CART_ITEMS
         then (False, s1\<lparr>heap := (heap s1)(cart := c1)\<rparr>)
         else
           (let c2 = c1\<lparr>updated_at := Some (clk 2)\<rparr>;
                c3 = (if created_at c2 = None then c2\<lparr>created_at := Some (clk 3)\<rparr> else c2)
            in (True, s1\<lparr>heap := (heap s1)(cart := c3),
                          carts := (carts s1)(user_id \<mapsto> cart)\<rparr>)))"

text \<open>\<^verbatim>\<open>remove_item(user_id, item_id)\<close>.\<close>
definition remove_item :: "clock \<Rightarrow> user_id \<Rightarrow> item_id \<Rightarrow> state \<Rightarrow> bool \<times> state" where
  "remove_item clk user_id item_id s =
     (let (cart, s1) = get_cart clk user_id s;
          c = heap s1 cart
      in case items c of
           None \<Rightarrow> (False, s1)
         | Some its \<Rightarrow>
             if DAList.lookup its item_id \<noteq> None
             then (True, s1\<lparr>heap := (heap s1)(cart :=
                                 c\<lparr>items := Some (DAList.delete item_id its),
                                   updated_at := Some (clk 2)\<rparr>),
                             carts := (carts s1)(user_id \<mapsto> cart)\<rparr>)
             else (False, s1))"

text \<open>
  \<^verbatim>\<open>update_quantity(user_id, item_id, quantity)\<close>. The positive branch assigns
  \<^verbatim>\<open>cart['items'][item_id] = quantity\<close> whether or not the key is present.
\<close>
definition update_quantity ::
  "clock \<Rightarrow> user_id \<Rightarrow> item_id \<Rightarrow> int \<Rightarrow> state \<Rightarrow> bool \<times> state" where
  "update_quantity clk user_id item_id quantity s =
     (if quantity \<le> 0 then remove_item clk user_id item_id s
      else
        (let (cart, s1) = get_cart clk user_id s;
             c = heap s1 cart
         in case items c of
              None \<Rightarrow> (False, s1)
            | Some its \<Rightarrow>
                (True, s1\<lparr>heap := (heap s1)(cart :=
                                c\<lparr>items := Some (DAList.update item_id quantity its),
                                  updated_at := Some (clk 2)\<rparr>),
                            carts := (carts s1)(user_id \<mapsto> cart)\<rparr>)))"

text \<open>
  The expression \<^verbatim>\<open>self.get_cart(user_id).get('items', {})\<close> that every read
  operation starts from. The reads return a value only: what they leave behind on the
  heap is the default dict of \<^verbatim>\<open>get_cart\<close>, which nothing refers to.
\<close>
definition cart_items :: "clock \<Rightarrow> user_id \<Rightarrow> state \<Rightarrow> items_dict" where
  "cart_items clk user_id s =
     (let (cart, s1) = get_cart clk user_id s
      in case items (heap s1 cart) of Some d \<Rightarrow> d | None \<Rightarrow> DAList.empty)"

definition get_item_quantity :: "clock \<Rightarrow> user_id \<Rightarrow> item_id \<Rightarrow> state \<Rightarrow> int" where
  "get_item_quantity clk user_id item_id s =
     (case DAList.lookup (cart_items clk user_id s) item_id of Some n \<Rightarrow> n | None \<Rightarrow> 0)"

definition clear_cart :: "user_id \<Rightarrow> state \<Rightarrow> bool \<times> state" where
  "clear_cart user_id s =
     (if carts s user_id \<noteq> None
      then (True, s\<lparr>carts := (carts s)(user_id := None)\<rparr>)
      else (False, s))"

definition get_cart_item_count :: "clock \<Rightarrow> user_id \<Rightarrow> state \<Rightarrow> int" where
  "get_cart_item_count clk user_id s =
     sum_list (map snd (DAList.impl_of (cart_items clk user_id s)))"

definition is_cart_empty :: "clock \<Rightarrow> user_id \<Rightarrow> state \<Rightarrow> bool" where
  "is_cart_empty clk user_id s \<longleftrightarrow> len (cart_items clk user_id s) = 0"

subsection \<open>The cart total\<close>

text \<open>
  \<^verbatim>\<open>get_cart_total(user_id, menu_items)\<close> walks a menu that comes from
  \<^verbatim>\<open>json.load\<close> (see \<^verbatim>\<open>load_menu_data\<close> in utils.py), so the menu is built from the
  JSON values below; the keys of a dict are strings.
\<close>
datatype pyval =
    PNone
  | PBool bool
  | PNum real
  | PStr string
  | PList "pyval list"
  | PDict "(string \<times> pyval) list"

datatype py_error = AttributeError | ValueError

text \<open>
  \<^verbatim>\<open>x.get(key, default)\<close>: a dict answers, any other JSON value has no attribute
  \<^verbatim>\<open>get\<close>.
\<close>
fun py_get :: "pyval \<Rightarrow> string \<Rightarrow> pyval \<Rightarrow> py_error + pyval" where
  "py_get (PDict d) key dflt = Inr (case map_of d key of Some v \<Rightarrow> v | None \<Rightarrow> dflt)"
| "py_get _ key dflt = Inl AttributeError"

text \<open>
  Lines 140 to 144, the loop \<^verbatim>\<open>for item in items\<close> over the values that iterating
  \<^verbatim>\<open>items\<close> yields. The builtin \<^verbatim>\<open>float\<close> is the parameter \<open>float_of\<close> (\<open>None\<close>
  where it raises \<^verbatim>\<open>ValueError\<close>); the arithmetic on prices is taken in the reals,
  and \<open>tot\<close> is the source's \<^verbatim>\<open>total\<close>.
  \<^verbatim>\<open>break\<close> leaves this loop only.
\<close>
fun scan_items ::
  "(string \<Rightarrow> real option) \<Rightarrow> item_id \<Rightarrow> int \<Rightarrow> pyval list \<Rightarrow> real \<Rightarrow> py_error + real" where
  "scan_items float_of item_id quantity [] tot = Inr tot"
| "scan_items float_of item_id quantity (item # rest) tot =
     (case py_get item ''id'' PNone of
        Inl e \<Rightarrow> Inl e
      | Inr v \<Rightarrow>
          if v = PStr item_id then
            (case py_get item ''price'' (PStr ''0'') of
               Inl e \<Rightarrow> Inl e
             | Inr (PStr p) \<Rightarrow>
                 (case float_of (filter (\<lambda>ch. ch \<noteq> CHR ''$'') p) of
                    None \<Rightarrow> Inl ValueError
                  | Some price \<Rightarrow> Inr (tot + price * of_int quantity))
             | Inr _ \<Rightarrow> Inl AttributeError)
          else scan_items float_of item_id quantity rest tot)"

text \<open>
  Lines 138 and 139, the loop over \<^verbatim>\<open>menu_items.items()\<close>; \<open>cat_items\<close> is the
  source's \<^verbatim>\<open>items\<close>. Only a value that is a dict passes
  \<^verbatim>\<open>isinstance(items, dict)\<close>, and iterating a dict yields its keys.
\<close>
fun scan_menu ::
  "(string \<Rightarrow> real option) \<Rightarrow> item_id \<Rightarrow> int \<Rightarrow> (string \<times> pyval) list \<Rightarrow> real
     \<Rightarrow> py_error + real" where
  "scan_menu float_of item_id quantity [] tot = Inr tot"
| "scan_menu float_of item_id quantity ((category, cat_items) # rest) tot =
     (case cat_items of
        PDict d \<Rightarrow>
          (case scan_items float_of item_id quantity (map (\<lambda>kv. PStr (fst kv)) d) tot of
             Inl e \<Rightarrow> Inl e
           | Inr t \<Rightarrow> scan_menu float_of item_id quantity rest t)
      | _ \<Rightarrow> scan_menu float_of item_id quantity rest tot)"

text \<open>Line 136, the loop over the entries of the cart.\<close>
fun scan_cart ::
  "(string \<Rightarrow> real option) \<Rightarrow> (string \<times> pyval) list \<Rightarrow> (item_id \<times> int) list \<Rightarrow> real
     \<Rightarrow> py_error + real" where
  "scan_cart float_of menu_items [] tot = Inr tot"
| "scan_cart float_of menu_items ((item_id, quantity) # rest) tot =
     (case scan_menu float_of item_id quantity menu_items tot of
        Inl e \<Rightarrow> Inl e
      | Inr t \<Rightarrow> scan_cart float_of menu_items rest t)"

text \<open>The \<^verbatim>\<open>except Exception\<close> of line 148 turns every error into the result 0.\<close>
definition get_cart_total ::
  "(string \<Rightarrow> real option) \<Rightarrow> clock \<Rightarrow> user_id \<Rightarrow> (string \<times> pyval) list \<Rightarrow> state \<Rightarrow> real" where
  "get_cart_total float_of clk user_id menu_items s =
     (case scan_cart float_of menu_items (DAList.impl_of (cart_items clk user_id s)) 0 of
        Inl e \<Rightarrow> 0
      | Inr tot \<Rightarrow> tot)"

subsection \<open>Invariants of the store\<close>

text \<open>Every cart that \<^verbatim>\<open>self.carts\<close> refers to is an object that has been allocated.\<close>
definition allocated :: "state \<Rightarrow> bool" where
  "allocated s \<longleftrightarrow> (\<forall>u r. carts s u = Some r \<longrightarrow> r < next_ref s)"

text \<open>Every stored cart has the key \<^verbatim>\<open>'items'\<close>.\<close>
definition has_items :: "state \<Rightarrow> bool" where
  "has_items s \<longleftrightarrow> (\<forall>u r. carts s u = Some r \<longrightarrow> items (heap s r) \<noteq> None)"

text \<open>Every quantity in every stored cart is positive.\<close>
definition quantities_positive :: "state \<Rightarrow> bool" where
  "quantities_positive s \<longleftrightarrow>
     (\<forall>u r d. carts s u = Some r \<longrightarrow> items (heap s r) = Some d \<longrightarrow>
        (\<forall>kq \<in> set (DAList.impl_of d). 0 < snd kq))"

text \<open>Every stored cart has at most \<^verbatim>\<open>MAX_CART_ITEMS\<close> keys.\<close>
definition within_capacity :: "int \<Rightarrow> state \<Rightarrow> bool" where
  "within_capacity MAX_CART_ITEMS s \<longleftrightarrow>
     (\<forall>u r d. carts s u = Some r \<longrightarrow> items (heap s r) = Some d \<longrightarrow> len d \<le> MAX_CART_ITEMS)"

subsection \<open>Example inputs\<close>

definition clock0 :: clock where
  "clock0 k = ''2024-01-01T00:00:00''"

text \<open>What \<^verbatim>\<open>float\<close> returns on the two price strings of the examples.\<close>
definition float0 :: "string \<Rightarrow> real option" where
  "float0 p = (if p = ''3.00'' then Some 3 else if p = ''5.00'' then Some 5 else None)"

text \<open>User 1 after \<^verbatim>\<open>add_item(1, 'a', 1)\<close> and \<^verbatim>\<open>add_item(1, 'b', 1)\<close>, capacity 2.\<close>
definition cart_full :: state where
  "cart_full =
     snd (add_item 2 clock0 1 ''b'' 1 (snd (add_item 2 clock0 1 ''a'' 1 init_state)))"

text \<open>User 1 with the cart \<^verbatim>\<open>{a: 2, b: 1}\<close>, capacity 50.\<close>
definition cart_a2_b1 :: state where
  "cart_a2_b1 =
     snd (add_item 50 clock0 1 ''b'' 1 (snd (add_item 50 clock0 1 ''a'' 2 init_state)))"

text \<open>User 1 after \<^verbatim>\<open>add_item(1, 'a', 1)\<close> alone.\<close>
definition cart_a1 :: state where
  "cart_a1 = snd (add_item 50 clock0 1 ''a'' 1 init_state)"

text \<open>User 1 after that add and \<^verbatim>\<open>remove_item(1, 'a')\<close>.\<close>
definition cart_drained :: state where
  "cart_drained = snd (remove_item clock0 1 ''a'' cart_a1)"

definition item_a :: pyval where
  "item_a = PDict [(''id'', PStr ''a''), (''name'', PStr ''Espresso''), (''price'', PStr ''$3.00'')]"

definition item_b :: pyval where
  "item_b = PDict [(''id'', PStr ''b''), (''name'', PStr ''Latte''), (''price'', PStr ''$5.00'')]"

text \<open>A menu from category to the list of its items.\<close>
definition menu_by_category :: "(string \<times> pyval) list" where
  "menu_by_category = [(''coffee'', PList [item_a, item_b])]"

text \<open>The same menu without item b.\<close>
definition menu_without_b :: "(string \<times> pyval) list" where
  "menu_without_b = [(''coffee'', PList [item_a])]"

text \<open>A catalog from item id to item.\<close>
definition menu_by_id :: "(string \<times> pyval) list" where
  "menu_by_id = [(''a'', item_a), (''b'', item_b)]"

section \<open>Properties\<close>

lemmas dict_ops =
  DAList.update.rep_eq DAList.empty.rep_eq DAList.lookup.rep_eq DAList.delete.rep_eq

lemmas cart_ops =
  add_item_def remove_item_def update_quantity_def clear_cart_def get_cart_def
  cart_items_def get_item_quantity_def default_cart_def len_def

lemmas examples =
  cart_full_def cart_a2_b1_def cart_a1_def cart_drained_def init_state_def clock0_def float0_def
  item_a_def item_b_def menu_by_category_def menu_without_b_def menu_by_id_def

subsection \<open>Items dicts\<close>

lemma set_update_subset: "set (AList.update k v al) \<subseteq> insert (k, v) (set al)"
  by (induction al) auto

lemma set_delete_subset: "set (AList.delete k al) \<subseteq> set al"
  by (induction al) auto

lemma length_update:
  "length (AList.update k v al) = (if k \<in> fst ` set al then length al else Suc (length al))"
  by (induction al) auto

lemma len_update:
  "len (DAList.update k v d) = (if DAList.lookup d k = None then len d + 1 else len d)"
  by (simp add: len_def dict_ops length_update map_of_eq_None_iff)

lemma len_delete: "len (DAList.delete k d) \<le> len d"
  by (simp add: len_def dict_ops length_delete_le)

lemma update_positive:
  assumes "\<forall>kq \<in> set (DAList.impl_of d). 0 < snd kq" "0 < v"
  shows "\<forall>kq \<in> set (DAList.impl_of (DAList.update k v d)). (0::int) < snd kq"
proof
  fix kq
  assume "kq \<in> set (DAList.impl_of (DAList.update k v d))"
  then have "kq \<in> insert (k, v) (set (DAList.impl_of d))"
    using set_update_subset [of k v "DAList.impl_of d"] unfolding DAList.update.rep_eq by blast
  then show "0 < snd kq" using assms by auto
qed

lemma delete_positive:
  assumes "\<forall>kq \<in> set (DAList.impl_of d). 0 < snd kq"
  shows "\<forall>kq \<in> set (DAList.impl_of (DAList.delete k d)). (0::int) < snd kq"
proof
  fix kq
  assume "kq \<in> set (DAList.impl_of (DAList.delete k d))"
  then have "kq \<in> set (DAList.impl_of d)"
    using set_delete_subset [of k "DAList.impl_of d"] unfolding DAList.delete.rep_eq by blast
  then show "0 < snd kq" using assms by simp
qed

lemma lookup_positive:
  assumes "\<forall>kq \<in> set (DAList.impl_of d). 0 < snd kq" "DAList.lookup d k = Some n"
  shows "(0::int) < n"
proof -
  have "map_of (DAList.impl_of d) k = Some n"
    using assms(2) by (simp add: DAList.lookup.rep_eq)
  then have "(k, n) \<in> set (DAList.impl_of d)"
    by (rule map_of_SomeD)
  with assms(1) have "0 < snd (k, n)" by blast
  then show ?thesis by simp
qed

subsection \<open>The operations, by whether the user has a stored cart\<close>

text \<open>
  With a stored cart at address \<open>r\<close> every write goes to the object at \<open>r\<close>; without
  one, to the default dict that \<^verbatim>\<open>get_cart\<close> has just built.
\<close>
lemma get_cart_fst:
  "fst (get_cart clk u s) = (case carts s u of Some r \<Rightarrow> r | None \<Rightarrow> next_ref s)"
  by (simp add: get_cart_def Let_def)

lemma get_cart_snd:
  "snd (get_cart clk u s) =
     s\<lparr>heap := (heap s)(next_ref s := default_cart clk), next_ref := Suc (next_ref s)\<rparr>"
  by (simp add: get_cart_def Let_def)

lemma cart_items_stored:
  "carts s u = Some r \<Longrightarrow> r < next_ref s \<Longrightarrow>
   cart_items clk u s = (case items (heap s r) of Some d \<Rightarrow> d | None \<Rightarrow> DAList.empty)"
  by (simp add: cart_items_def case_prod_beta get_cart_fst get_cart_snd)

lemma cart_items_absent: "carts s u = None \<Longrightarrow> cart_items clk u s = DAList.empty"
  by (simp add: cart_items_def case_prod_beta get_cart_fst get_cart_snd default_cart_def)

lemma add_item_stored:
  assumes "carts s u = Some r" "r < next_ref s"
  shows "add_item cap clk u i q s =
    (let its = (case items (heap s r) of Some d \<Rightarrow> d | None \<Rightarrow> DAList.empty);
         its' = (case DAList.lookup its i of
                   Some n \<Rightarrow> DAList.update i (n + q) its
                 | None \<Rightarrow> DAList.update i q its);
         s1 = snd (get_cart clk u s)
     in if cap < len its'
        then (False, s1\<lparr>heap := (heap s1)(r := (heap s r)\<lparr>items := Some its'\<rparr>)\<rparr>)
        else (True, s1\<lparr>heap := (heap s1)(r := (heap s r)\<lparr>items := Some its',
                 updated_at := Some (clk 2),
                 created_at := (if created_at (heap s r) = None then Some (clk 3)
                                else created_at (heap s r))\<rparr>),
               carts := (carts s)(u \<mapsto> r)\<rparr>))"
  using assms
  by (simp add: add_item_def case_prod_beta get_cart_fst get_cart_snd Let_def
      cong: option.case_cong)

lemma add_item_absent:
  assumes "carts s u = None"
  shows "add_item cap clk u i q s =
    (let its' = DAList.update i q DAList.empty;
         d = next_ref s;
         s1 = snd (get_cart clk u s)
     in if cap < 1
        then (False, s1\<lparr>heap := (heap s1)(d := (default_cart clk)\<lparr>items := Some its'\<rparr>)\<rparr>)
        else (True, s1\<lparr>heap := (heap s1)(d := (default_cart clk)\<lparr>items := Some its',
                 updated_at := Some (clk 2)\<rparr>),
               carts := (carts s)(u \<mapsto> d)\<rparr>))"
  using assms
  by (simp add: add_item_def case_prod_beta get_cart_fst get_cart_snd Let_def default_cart_def
      len_def dict_ops)

lemma remove_item_stored:
  assumes "carts s u = Some r" "r < next_ref s"
  shows "remove_item clk u i s =
    (let s1 = snd (get_cart clk u s)
     in case items (heap s r) of
          None \<Rightarrow> (False, s1)
        | Some its \<Rightarrow>
            if DAList.lookup its i \<noteq> None
            then (True, s1\<lparr>heap := (heap s1)(r := (heap s r)\<lparr>items := Some (DAList.delete i its),
                     updated_at := Some (clk 2)\<rparr>),
                   carts := (carts s)(u \<mapsto> r)\<rparr>)
            else (False, s1))"
  using assms
  by (simp add: remove_item_def case_prod_beta get_cart_fst get_cart_snd Let_def
      split: option.splits)

lemma remove_item_absent:
  assumes "carts s u = None"
  shows "remove_item clk u i s = (False, snd (get_cart clk u s))"
  using assms
  by (simp add: remove_item_def case_prod_beta get_cart_fst get_cart_snd Let_def default_cart_def
      dict_ops)

lemma update_quantity_stored:
  assumes "carts s u = Some r" "r < next_ref s" "0 < q"
  shows "update_quantity clk u i q s =
    (let s1 = snd (get_cart clk u s)
     in case items (heap s r) of
          None \<Rightarrow> (False, s1)
        | Some its \<Rightarrow>
            (True, s1\<lparr>heap := (heap s1)(r := (heap s r)\<lparr>items := Some (DAList.update i q its),
                     updated_at := Some (clk 2)\<rparr>),
                   carts := (carts s)(u \<mapsto> r)\<rparr>))"
  using assms
  by (simp add: update_quantity_def case_prod_beta get_cart_fst get_cart_snd Let_def
      split: option.splits)

lemma update_quantity_absent:
  assumes "carts s u = None" "0 < q"
  shows "update_quantity clk u i q s =
    (let d = next_ref s; s1 = snd (get_cart clk u s)
     in (True, s1\<lparr>heap := (heap s1)(d := (default_cart clk)\<lparr>
                     items := Some (DAList.update i q DAList.empty),
                     updated_at := Some (clk 2)\<rparr>),
                   carts := (carts s)(u \<mapsto> d)\<rparr>))"
  using assms
  by (simp add: update_quantity_def case_prod_beta get_cart_fst get_cart_snd Let_def default_cart_def)

text \<open>The clock has no part in what \<open>cart_items\<close> reads.\<close>
lemma cart_items_clock: "allocated s \<Longrightarrow> cart_items clk u s = cart_items clk' u s"
  by (cases "carts s u") (auto simp: cart_items_absent cart_items_stored allocated_def)

lemma add_item_allocated: "allocated s \<Longrightarrow> allocated (snd (add_item cap clk u i q s))"
  by (cases "carts s u")
     (auto simp: add_item_absent add_item_stored allocated_def get_cart_snd Let_def
           dest: less_SucI)

text \<open>What \<^verbatim>\<open>add_item\<close> returns and leaves in the cart, read through \<open>cart_items\<close>.\<close>
lemma add_item_result:
  assumes "allocated s"
  shows "fst (add_item cap clk u i q s) \<longleftrightarrow>
           len (case DAList.lookup (cart_items clk0 u s) i of
                  Some n \<Rightarrow> DAList.update i (n + q) (cart_items clk0 u s)
                | None \<Rightarrow> DAList.update i q (cart_items clk0 u s)) \<le> cap"
proof (cases "carts s u")
  case None
  then show ?thesis
    by (auto simp: add_item_absent cart_items_absent Let_def len_def dict_ops)
next
  case (Some r)
  with assms have "r < next_ref s" by (simp add: allocated_def)
  with Some show ?thesis
    by (simp add: add_item_stored cart_items_stored Let_def cong: option.case_cong)
qed

lemma add_item_cart_items:
  assumes "allocated s"
  shows "cart_items clk' u (snd (add_item cap clk u i q s)) =
           (if carts s u = None \<and> cap < 1 then DAList.empty
            else case DAList.lookup (cart_items clk0 u s) i of
                  Some n \<Rightarrow> DAList.update i (n + q) (cart_items clk0 u s)
                | None \<Rightarrow> DAList.update i q (cart_items clk0 u s))"
proof (cases "carts s u")
  case None
  then show ?thesis
    by (auto simp: add_item_absent cart_items_absent cart_items_stored Let_def get_cart_snd dict_ops)
next
  case (Some r)
  with assms have "r < next_ref s" by (simp add: allocated_def)
  with Some show ?thesis
    by (simp add: add_item_stored cart_items_stored Let_def get_cart_snd cong: option.case_cong)
qed


lemma add_item_carts:
  "carts (snd (add_item cap clk u i q s)) =
     (if fst (add_item cap clk u i q s) then (carts s)(u \<mapsto> fst (get_cart clk u s))
      else carts s)"
  by (simp add: add_item_def case_prod_beta Let_def get_cart_snd)

subsection \<open>Stored carts stay allocated\<close>

lemma remove_item_allocated: "allocated s \<Longrightarrow> allocated (snd (remove_item clk u i s))"
  by (cases "carts s u")
     (auto simp: remove_item_absent remove_item_stored allocated_def get_cart_snd Let_def
           split: option.splits dest: less_SucI)

lemma update_quantity_allocated:
  "allocated s \<Longrightarrow> allocated (snd (update_quantity clk u i q s))"
proof (cases "0 < q")
  case False
  assume "allocated s"
  with False show ?thesis by (simp add: update_quantity_def remove_item_allocated)
next
  case True
  assume "allocated s"
  with True show ?thesis
    by (cases "carts s u")
       (auto simp: update_quantity_absent update_quantity_stored allocated_def get_cart_snd Let_def
           split: option.splits dest: less_SucI)
qed

lemma clear_cart_allocated: "allocated s \<Longrightarrow> allocated (snd (clear_cart u s))"
  by (auto simp: clear_cart_def allocated_def)

lemma init_state_allocated: "allocated init_state"
  by (simp add: allocated_def init_state_def)

subsection \<open>Stored carts keep their items key\<close>

lemma init_state_has_items: "has_items init_state"
  by (simp add: has_items_def init_state_def)

lemma add_item_has_items:
  assumes "allocated s" "has_items s"
  shows "has_items (snd (add_item cap clk u i q s))"
proof (cases "carts s u")
  case None
  with assms show ?thesis
    by (auto simp: add_item_absent has_items_def allocated_def get_cart_snd Let_def default_cart_def)
next
  case (Some r)
  with assms(1) have "r < next_ref s" by (simp add: allocated_def)
  with Some assms show ?thesis
    by (auto simp: add_item_stored has_items_def allocated_def get_cart_snd Let_def)
qed

lemma remove_item_has_items:
  assumes "allocated s" "has_items s"
  shows "has_items (snd (remove_item clk u i s))"
proof (cases "carts s u")
  case None
  with assms show ?thesis
    by (auto simp: remove_item_absent has_items_def allocated_def get_cart_snd)
next
  case (Some r)
  with assms(1) have "r < next_ref s" by (simp add: allocated_def)
  with Some assms show ?thesis
    by (cases "items (heap s r)")
       (auto simp: remove_item_stored has_items_def allocated_def get_cart_snd Let_def)
qed

lemma update_quantity_has_items:
  assumes "allocated s" "has_items s"
  shows "has_items (snd (update_quantity clk u i q s))"
proof (cases "0 < q")
  case False
  with assms show ?thesis by (simp add: update_quantity_def remove_item_has_items)
next
  case True
  show ?thesis
  proof (cases "carts s u")
    case None
    with assms True show ?thesis
      by (auto simp: update_quantity_absent has_items_def allocated_def get_cart_snd Let_def)
  next
    case (Some r)
    with assms(1) have "r < next_ref s" by (simp add: allocated_def)
    with Some assms True show ?thesis
      by (cases "items (heap s r)")
         (auto simp: update_quantity_stored has_items_def allocated_def get_cart_snd Let_def)
  qed
qed

lemma clear_cart_has_items: "has_items s \<Longrightarrow> has_items (snd (clear_cart u s))"
  by (auto simp: clear_cart_def has_items_def)

subsection \<open>What an operation changes among the stored carts\<close>

text \<open>
  After an operation, a stored cart either is a cart that was stored before, with the
  items it had, or is the cart the operation wrote to.
\<close>
lemma add_item_frame:
  assumes "allocated s"
    and "carts (snd (add_item cap clk u i q s)) v = Some r"
    and "items (heap (snd (add_item cap clk u i q s)) r) = Some d'"
  shows "(carts s v = Some r \<and> items (heap s r) = Some d')
       \<or> (\<exists>d. (d = DAList.empty \<or> (\<exists>r0. carts s u = Some r0 \<and> items (heap s r0) = Some d))
              \<and> d' = (case DAList.lookup d i of
                         Some n \<Rightarrow> DAList.update i (n + q) d
                       | None \<Rightarrow> DAList.update i q d)
              \<and> (fst (add_item cap clk u i q s) \<longrightarrow> len d' \<le> cap))"
proof (cases "carts s u")
  case None
  show ?thesis
  proof (cases "r = next_ref s")
    case True
    with assms(2,3) None have "d' = DAList.update i q DAList.empty
        \<and> (fst (add_item cap clk u i q s) \<longrightarrow> len d' \<le> cap)"
      by (auto simp: add_item_absent Let_def get_cart_snd len_def dict_ops split: if_splits)
    then show ?thesis by (intro disjI2 exI [of _ DAList.empty]) auto
  next
    case False
    with assms(2,3) None have "carts s v = Some r \<and> items (heap s r) = Some d'"
      by (auto simp: add_item_absent Let_def get_cart_snd split: if_splits)
    then show ?thesis by simp
  qed
next
  case (Some r0)
  with assms(1) have lt: "r0 < next_ref s" by (simp add: allocated_def)
  from assms(2) Some have cv: "carts s v = Some r"
    by (auto simp: add_item_carts get_cart_fst split: if_splits)
  with assms(1) have rl: "r \<noteq> next_ref s" by (auto simp: allocated_def)
  show ?thesis
  proof (cases "r = r0")
    case True
    let ?d = "case items (heap s r0) of Some d \<Rightarrow> d | None \<Rightarrow> DAList.empty"
    from True assms(3) Some lt have "d' = (case DAList.lookup ?d i of
                         Some n \<Rightarrow> DAList.update i (n + q) ?d
                       | None \<Rightarrow> DAList.update i q ?d)
        \<and> (fst (add_item cap clk u i q s) \<longrightarrow> len d' \<le> cap)"
      by (auto simp: add_item_stored Let_def get_cart_snd split: if_splits)
    moreover have "?d = DAList.empty \<or> (\<exists>r0. carts s u = Some r0 \<and> items (heap s r0) = Some ?d)"
      using Some by (cases "items (heap s r0)") auto
    ultimately show ?thesis by (intro disjI2 exI [of _ ?d]) auto
  next
    case False
    with assms(3) Some lt rl have "items (heap s r) = Some d'"
      by (simp add: add_item_stored Let_def get_cart_snd split: if_splits)
    with cv show ?thesis by simp
  qed
qed

lemma remove_item_carts:
  "carts (snd (remove_item clk u i s)) =
     (if fst (remove_item clk u i s) then (carts s)(u \<mapsto> fst (get_cart clk u s))
      else carts s)"
  by (simp add: remove_item_def case_prod_beta Let_def get_cart_snd split: option.splits)

lemma remove_item_frame:
  assumes "allocated s"
    and "carts (snd (remove_item clk u i s)) v = Some r"
    and "items (heap (snd (remove_item clk u i s)) r) = Some d'"
  shows "(carts s v = Some r \<and> items (heap s r) = Some d')
       \<or> (\<exists>r0 d. carts s u = Some r0 \<and> items (heap s r0) = Some d \<and> d' = DAList.delete i d)"
proof (cases "carts s u")
  case None
  with assms(2) have cv: "carts s v = Some r"
    by (simp add: remove_item_absent get_cart_snd)
  with assms(1) have "r \<noteq> next_ref s" by (auto simp: allocated_def)
  with assms(3) None have "items (heap s r) = Some d'"
    by (simp add: remove_item_absent get_cart_snd)
  with cv show ?thesis by simp
next
  case (Some r0)
  with assms(1) have lt: "r0 < next_ref s" by (simp add: allocated_def)
  from assms(2) Some have cv: "carts s v = Some r"
    by (auto simp: remove_item_carts get_cart_fst split: if_splits)
  with assms(1) have rl: "r \<noteq> next_ref s" by (auto simp: allocated_def)
  show ?thesis
  proof (cases "r = r0")
    case True
    with assms(3) Some lt rl cv show ?thesis
      by (cases "items (heap s r0)")
         (auto simp: remove_item_stored Let_def get_cart_snd split: if_splits)
  next
    case False
    with assms(3) Some lt rl have "items (heap s r) = Some d'"
      by (cases "items (heap s r0)")
         (auto simp: remove_item_stored Let_def get_cart_snd split: if_splits)
    with cv show ?thesis by simp
  qed
qed

lemma update_quantity_frame:
  assumes "allocated s" "0 < q"
    and "carts (snd (update_quantity clk u i q s)) v = Some r"
    and "items (heap (snd (update_quantity clk u i q s)) r) = Some d'"
  shows "(carts s v = Some r \<and> items (heap s r) = Some d')
       \<or> (carts s u = None \<and> d' = DAList.update i q DAList.empty)
       \<or> (\<exists>r0 d. carts s u = Some r0 \<and> items (heap s r0) = Some d \<and> d' = DAList.update i q d)"
proof (cases "carts s u")
  case None
  show ?thesis
  proof (cases "r = next_ref s")
    case True
    with assms(2,4) None show ?thesis
      by (simp add: update_quantity_absent Let_def get_cart_snd)
  next
    case False
    with assms(2,3,4) None have "carts s v = Some r \<and> items (heap s r) = Some d'"
      by (auto simp: update_quantity_absent Let_def get_cart_snd split: if_splits)
    then show ?thesis by simp
  qed
next
  case (Some r0)
  with assms(1) have lt: "r0 < next_ref s" by (simp add: allocated_def)
  from assms(2,3) Some lt have cv: "carts s v = Some r"
    by (cases "items (heap s r0)")
       (auto simp: update_quantity_stored Let_def get_cart_snd split: if_splits)
  with assms(1) have rl: "r \<noteq> next_ref s" by (auto simp: allocated_def)
  show ?thesis
  proof (cases "r = r0")
    case True
    with assms(2,4) Some lt rl cv show ?thesis
      by (cases "items (heap s r0)")
         (auto simp: update_quantity_stored Let_def get_cart_snd split: if_splits)
  next
    case False
    with assms(2,4) Some lt rl have "items (heap s r) = Some d'"
      by (cases "items (heap s r0)")
         (auto simp: update_quantity_stored Let_def get_cart_snd split: if_splits)
    with cv show ?thesis by simp
  qed
qed

lemma clear_cart_frame:
  assumes "carts (snd (clear_cart u s)) v = Some r"
    and "items (heap (snd (clear_cart u s)) r) = Some d'"
  shows "carts s v = Some r \<and> items (heap s r) = Some d'"
  using assms by (auto simp: clear_cart_def split: if_splits)

lemma delete_absent: "DAList.lookup d k = None \<Longrightarrow> DAList.delete k d = d"
  by (simp add: alist_eq_iff dict_ops map_of_eq_None_iff)

lemma remove_item_cart_items:
  assumes "allocated s"
  shows "cart_items clk' u (snd (remove_item clk u i s)) = DAList.delete i (cart_items clk0 u s)"
proof (cases "carts s u")
  case None
  then show ?thesis
    by (simp add: remove_item_absent cart_items_absent get_cart_snd delete_absent)
next
  case (Some r)
  with assms have "r < next_ref s" by (simp add: allocated_def)
  with Some show ?thesis
    by (cases "items (heap s r)")
       (auto simp: remove_item_stored cart_items_stored Let_def get_cart_snd delete_absent)
qed

lemma update_quantity_cart_items:
  assumes "allocated s" "0 < q" "\<forall>r. carts s u = Some r \<longrightarrow> items (heap s r) \<noteq> None"
  shows "cart_items clk' u (snd (update_quantity clk u i q s)) =
           DAList.update i q (cart_items clk0 u s)"
proof (cases "carts s u")
  case None
  with assms(2) show ?thesis
    by (simp add: update_quantity_absent cart_items_absent cart_items_stored Let_def get_cart_snd)
next
  case (Some r)
  with assms(1) have "r < next_ref s" by (simp add: allocated_def)
  with Some assms(2,3) show ?thesis
    by (cases "items (heap s r)")
       (auto simp: update_quantity_stored cart_items_stored Let_def get_cart_snd)
qed

subsection \<open>A rejected add\<close>

text \<open>
  Claim C1: with a cart that already holds \<^verbatim>\<open>MAX_CART_ITEMS\<close> distinct items, adding a
  new item is rejected and the cart's items are what they were. In the code the call
  is rejected, but the stored cart is the object the new key was written to before the
  check: with capacity 2 and the cart \<^verbatim>\<open>{a: 1, b: 1}\<close>, \<^verbatim>\<open>add_item(1, 'c', 1)\<close> returns
  \<^verbatim>\<open>False\<close> and the cart of user 1 is \<^verbatim>\<open>{a: 1, b: 1, c: 1}\<close> afterwards.
\<close>
theorem add_item_rejected_keeps_new_key:
  "DAList.impl_of (cart_items clock0 1 cart_full) = [(''a'', 1), (''b'', 1)]
   \<and> DAList.lookup (cart_items clock0 1 cart_full) ''c'' = None
   \<and> fst (add_item 2 clock0 1 ''c'' 1 cart_full) = False
   \<and> DAList.impl_of (cart_items clock0 1 (snd (add_item 2 clock0 1 ''c'' 1 cart_full)))
        = [(''a'', 1), (''b'', 1), (''c'', 1)]"
  by (simp add: cart_ops examples dict_ops Let_def)

text \<open>
  The same holds of every stored cart at capacity: the call is rejected and the new key
  is in the cart afterwards.
\<close>
lemma add_item_at_capacity:
  assumes "allocated s" "carts s u \<noteq> None"
    and "len (cart_items clk0 u s) = cap" "DAList.lookup (cart_items clk0 u s) i = None"
  shows "\<not> fst (add_item cap clk u i q s)
       \<and> cart_items clk' u (snd (add_item cap clk u i q s)) = DAList.update i q (cart_items clk0 u s)
       \<and> cart_items clk' u (snd (add_item cap clk u i q s)) \<noteq> cart_items clk0 u s"
proof -
  have r: "\<not> fst (add_item cap clk u i q s)"
    using assms(3,4) by (simp add: add_item_result [OF assms(1), where ?clk0.0 = clk0] len_update)
  have c: "cart_items clk' u (snd (add_item cap clk u i q s)) = DAList.update i q (cart_items clk0 u s)"
    using assms(2,4) by (auto simp: add_item_cart_items [OF assms(1), where ?clk0.0 = clk0])
  have "DAList.lookup (DAList.update i q (cart_items clk0 u s)) i \<noteq> DAList.lookup (cart_items clk0 u s) i"
    using assms(4) by simp
  then have "DAList.update i q (cart_items clk0 u s) \<noteq> cart_items clk0 u s"
    by metis
  with r c show ?thesis by simp
qed

subsection \<open>The cart total\<close>

text \<open>Iterating a dict yields strings, and the first of them has no \<^verbatim>\<open>get\<close>.\<close>
lemma scan_items_keys:
  "scan_items fl i q (map (\<lambda>kv. PStr (fst kv)) d) t =
     (if d = [] then Inr t else Inl AttributeError)"
  by (cases d) auto

lemma scan_menu_result:
  "scan_menu fl i q m t = Inr t \<or> scan_menu fl i q m t = Inl AttributeError"
proof (induction m arbitrary: t)
  case Nil
  then show ?case by simp
next
  case (Cons a m)
  obtain c v where a: "a = (c, v)" by (cases a)
  show ?case
    using Cons [of t] by (cases v) (simp_all add: a scan_items_keys)
qed

lemma scan_cart_result:
  "scan_cart fl m c t = Inr t \<or> scan_cart fl m c t = Inl AttributeError"
proof (induction c arbitrary: t)
  case Nil
  then show ?case by simp
next
  case (Cons a c)
  obtain i q where a: "a = (i, q)" by (cases a)
  show ?case
    using scan_menu_result [of fl i q m t] Cons [of t] by (auto simp: a)
qed

text \<open>No price is ever added: on every menu and every cart the total is 0.\<close>
lemma get_cart_total_zero: "get_cart_total fl clk u m s = 0"
  using scan_cart_result [of fl m "DAList.impl_of (cart_items clk u s)" 0]
  by (auto simp: get_cart_total_def)

text \<open>
  Claim C2: the total is the sum of price times quantity over the entries of the cart,
  11.00 for the cart \<^verbatim>\<open>{a: 2, b: 1}\<close> with prices 3.00 and 5.00, and 6.00 when b is not
  on the menu. The code returns 0 for that cart, whether the menu maps a category to the
  list of its items (the list fails \<^verbatim>\<open>isinstance(items, dict)\<close> and is skipped) or
  maps an item id to its item (the keys of the item are iterated, and
  \<^verbatim>\<open>'id'.get\<close> raises, which the handler turns into 0).
\<close>
theorem get_cart_total_of_a2_b1:
  "DAList.impl_of (cart_items clock0 1 cart_a2_b1) = [(''a'', 2), (''b'', 1)]
   \<and> get_cart_total float0 clock0 1 menu_by_category cart_a2_b1 = 0
   \<and> get_cart_total float0 clock0 1 menu_without_b cart_a2_b1 = 0
   \<and> get_cart_total float0 clock0 1 menu_by_id cart_a2_b1 = 0"
  by (simp add: cart_ops examples dict_ops Let_def get_cart_total_def)

subsection \<open>Adding accumulates\<close>

text \<open>
  Claim C7: two calls \<^verbatim>\<open>add_item(u, i, 1)\<close> in sequence, on a cart that does not hold
  \<open>i\<close>, leave the quantity 2 for \<open>i\<close>. \<^verbatim>\<open>MAX_CART_ITEMS\<close> is a positive integer, as the
  configuration of the store requires.
\<close>
theorem add_item_twice_accumulates:
  assumes "allocated s" "0 < cap" "DAList.lookup (cart_items clk0 u s) i = None"
  shows "get_item_quantity clk3 u i
           (snd (add_item cap clk2 u i 1 (snd (add_item cap clk1 u i 1 s)))) = 2"
proof -
  let ?s1 = "snd (add_item cap clk1 u i 1 s)"
  have a1: "allocated ?s1" using assms(1) by (rule add_item_allocated)
  have c1: "cart_items clk0 u ?s1 = DAList.update i 1 (cart_items clk0 u s)"
    using assms by (simp add: add_item_cart_items [where ?clk0.0 = clk0])
  have k1: "carts ?s1 u \<noteq> None"
    using assms by (cases "carts s u") (auto simp: add_item_carts add_item_absent Let_def)
  have "cart_items clk3 u (snd (add_item cap clk2 u i 1 ?s1)) =
          DAList.update i 2 (cart_items clk0 u s)"
    using a1 k1 by (auto simp: add_item_cart_items [where ?clk0.0 = clk0] c1)
  then show ?thesis by (simp add: get_item_quantity_def)
qed

theorem add_item_twice_accumulates_witness:
  "allocated cart_full \<and> (0::int) < 2
   \<and> DAList.lookup (cart_items clock0 1 cart_full) ''c'' = None
   \<and> get_item_quantity clock0 1 ''c''
         (snd (add_item 2 clock0 1 ''c'' 1 (snd (add_item 2 clock0 1 ''c'' 1 cart_full)))) = 2"
proof -
  have h1: "allocated cart_full"
    by (simp add: allocated_def cart_ops examples dict_ops Let_def)
  have h2: "(0::int) < 2" by simp
  have h3: "DAList.lookup (cart_items clock0 1 cart_full) ''c'' = None"
    by (simp add: cart_ops examples dict_ops Let_def)
  show ?thesis
    using h1 h2 h3 add_item_twice_accumulates [OF h1 h2 h3, of clock0 clock0 clock0]
    by simp
qed

subsection \<open>Adding a quantity that is not positive\<close>

text \<open>
  Claim C3, as stated: \<^verbatim>\<open>add_item\<close> with a quantity that is not positive fails and
  leaves the cart as it was. The code does not look at the sign of \<^verbatim>\<open>quantity\<close>: on
  the empty store \<^verbatim>\<open>add_item(1, 'a', 0)\<close> returns \<^verbatim>\<open>True\<close> and the cart is
  \<^verbatim>\<open>{a: 0}\<close> afterwards.
\<close>
theorem add_item_zero_quantity_accepted:
  "(0::int) \<le> 0
   \<and> DAList.impl_of (cart_items clock0 1 init_state) = []
   \<and> fst (add_item 50 clock0 1 ''a'' 0 init_state) = True
   \<and> DAList.impl_of (cart_items clock0 1 (snd (add_item 50 clock0 1 ''a'' 0 init_state)))
        = [(''a'', 0)]"
  by (simp add: cart_ops examples dict_ops Let_def)

text \<open>
  Claim C3, amended: a quantity that is not positive is treated like any other. When the
  cart has room (its number of keys, plus one if the item is new, is at most
  \<^verbatim>\<open>MAX_CART_ITEMS\<close>), \<^verbatim>\<open>add_item\<close> returns \<^verbatim>\<open>True\<close> and the quantity read back is
  the one read before plus \<^verbatim>\<open>quantity\<close>.
\<close>
theorem add_item_non_positive_quantity:
  assumes "allocated s" "q \<le> 0"
    and "len (cart_items clk0 u s) + (if DAList.lookup (cart_items clk0 u s) i = None then 1 else 0) \<le> cap"
  shows "fst (add_item cap clk u i q s)
     \<and> get_item_quantity clk' u i (snd (add_item cap clk u i q s)) = get_item_quantity clk0 u i s + q"
proof -
  have r: "fst (add_item cap clk u i q s)"
    using assms(3) by (auto simp: add_item_result [OF assms(1), where ?clk0.0 = clk0] len_update split: option.splits)
  have "\<not> (carts s u = None \<and> cap < 1)"
    using assms(3) by (auto simp: cart_items_absent len_def dict_ops)
  then have "cart_items clk' u (snd (add_item cap clk u i q s)) =
      (case DAList.lookup (cart_items clk0 u s) i of
                  Some n \<Rightarrow> DAList.update i (n + q) (cart_items clk0 u s)
                | None \<Rightarrow> DAList.update i q (cart_items clk0 u s))"
    by (auto simp: add_item_cart_items [OF assms(1), where ?clk0.0 = clk0])
  then show ?thesis using r by (simp add: get_item_quantity_def split: option.splits)
qed

theorem add_item_non_positive_quantity_witness:
  "allocated cart_a2_b1 \<and> (- 1::int) \<le> 0
   \<and> len (cart_items clock0 1 cart_a2_b1)
       + (if DAList.lookup (cart_items clock0 1 cart_a2_b1) ''a'' = None then 1 else 0) \<le> 50
   \<and> fst (add_item 50 clock0 1 ''a'' (- 1) cart_a2_b1)
   \<and> get_item_quantity clock0 1 ''a'' (snd (add_item 50 clock0 1 ''a'' (- 1) cart_a2_b1))
       = get_item_quantity clock0 1 ''a'' cart_a2_b1 + (- 1)"
proof -
  have h1: "allocated cart_a2_b1"
    by (simp add: allocated_def cart_ops examples dict_ops Let_def)
  have h2: "(- 1::int) \<le> 0" by simp
  have h3: "len (cart_items clock0 1 cart_a2_b1)
       + (if DAList.lookup (cart_items clock0 1 cart_a2_b1) ''a'' = None then 1 else 0) \<le> 50"
    by (simp add: cart_ops examples dict_ops Let_def)
  show ?thesis
    using h1 h2 h3 add_item_non_positive_quantity [OF h1 h2 h3, of clock0 clock0]
    by simp
qed

subsection \<open>Positive quantities\<close>

text \<open>
  Claim C4, as stated: every operation keeps every stored quantity positive.
  \<^verbatim>\<open>add_item(1, 'a', 0)\<close> on the empty store stores the quantity 0.
\<close>
theorem add_item_stores_zero_quantity:
  "quantities_positive init_state
   \<and> \<not> quantities_positive (snd (add_item 50 clock0 1 ''a'' 0 init_state))"
proof
  show "quantities_positive init_state"
    by (simp add: quantities_positive_def init_state_def)
next
  let ?s = "snd (add_item 50 clock0 1 ''a'' 0 init_state)"
  have c: "carts ?s 1 = Some 0"
    by (simp add: cart_ops examples dict_ops Let_def)
  have h: "items (heap ?s 0) = Some (DAList.update ''a'' 0 DAList.empty)"
    by (simp add: cart_ops examples dict_ops Let_def)
  show "\<not> quantities_positive ?s"
  proof
    assume "quantities_positive ?s"
    with c h have "\<forall>kq \<in> set (DAList.impl_of (DAList.update ''a'' (0::int) DAList.empty)). 0 < snd kq"
      unfolding quantities_positive_def by blast
    then show False by (simp add: dict_ops)
  qed
qed

lemma add_item_positive:
  assumes "allocated s" "quantities_positive s" "0 < q"
  shows "quantities_positive (snd (add_item cap clk u i q s))"
  unfolding quantities_positive_def
proof (intro allI impI)
  fix v r d'
  assume a: "carts (snd (add_item cap clk u i q s)) v = Some r"
    and b: "items (heap (snd (add_item cap clk u i q s)) r) = Some d'"
  from add_item_frame [OF assms(1) a b]
  show "\<forall>kq \<in> set (DAList.impl_of d'). 0 < snd kq"
  proof
    assume "carts s v = Some r \<and> items (heap s r) = Some d'"
    with assms(2) show ?thesis unfolding quantities_positive_def by blast
  next
    assume "\<exists>d. (d = DAList.empty \<or> (\<exists>r0. carts s u = Some r0 \<and> items (heap s r0) = Some d))
              \<and> d' = (case DAList.lookup d i of
                         Some n \<Rightarrow> DAList.update i (n + q) d
                       | None \<Rightarrow> DAList.update i q d)
              \<and> (fst (add_item cap clk u i q s) \<longrightarrow> len d' \<le> cap)"
    then obtain d where d: "d = DAList.empty \<or> (\<exists>r0. carts s u = Some r0 \<and> items (heap s r0) = Some d)"
      and d': "d' = (case DAList.lookup d i of
                         Some n \<Rightarrow> DAList.update i (n + q) d
                       | None \<Rightarrow> DAList.update i q d)" by blast
    have p0: "\<forall>kq \<in> set (DAList.impl_of d). 0 < snd kq"
      using d assms(2) unfolding quantities_positive_def by (auto simp: dict_ops)
    show ?thesis
    proof (cases "DAList.lookup d i")
      case None
      then show ?thesis using update_positive [OF p0 assms(3)] d' by simp
    next
      case (Some n)
      then have "0 < n + q" using lookup_positive [OF p0 Some] assms(3) by simp
      then show ?thesis using update_positive [OF p0] Some d' by simp
    qed
  qed
qed

lemma remove_item_positive:
  assumes "allocated s" "quantities_positive s"
  shows "quantities_positive (snd (remove_item clk u i s))"
  unfolding quantities_positive_def
proof (intro allI impI)
  fix v r d'
  assume a: "carts (snd (remove_item clk u i s)) v = Some r"
    and b: "items (heap (snd (remove_item clk u i s)) r) = Some d'"
  from remove_item_frame [OF assms(1) a b]
  show "\<forall>kq \<in> set (DAList.impl_of d'). 0 < snd kq"
  proof
    assume "carts s v = Some r \<and> items (heap s r) = Some d'"
    with assms(2) show ?thesis unfolding quantities_positive_def by blast
  next
    assume "\<exists>r0 d. carts s u = Some r0 \<and> items (heap s r0) = Some d \<and> d' = DAList.delete i d"
    then obtain r0 d where d: "carts s u = Some r0" "items (heap s r0) = Some d"
      and d': "d' = DAList.delete i d" by blast
    have "\<forall>kq \<in> set (DAList.impl_of d). 0 < snd kq"
      using d assms(2) unfolding quantities_positive_def by blast
    then show ?thesis using delete_positive d' by simp
  qed
qed

lemma update_quantity_positive:
  assumes "allocated s" "quantities_positive s"
  shows "quantities_positive (snd (update_quantity clk u i q s))"
proof (cases "0 < q")
  case False
  then show ?thesis using assms by (simp add: update_quantity_def remove_item_positive)
next
  case True
  show ?thesis
    unfolding quantities_positive_def
  proof (intro allI impI)
    fix v r d'
    assume a: "carts (snd (update_quantity clk u i q s)) v = Some r"
      and b: "items (heap (snd (update_quantity clk u i q s)) r) = Some d'"
    have e: "\<forall>kq \<in> set (DAList.impl_of (DAList.empty :: items_dict)). 0 < snd kq"
      by (simp add: dict_ops)
    from update_quantity_frame [OF assms(1) True a b]
    consider "carts s v = Some r \<and> items (heap s r) = Some d'"
      | "d' = DAList.update i q DAList.empty"
      | r0 d where "carts s u = Some r0" "items (heap s r0) = Some d" "d' = DAList.update i q d"
      by blast
    then show "\<forall>kq \<in> set (DAList.impl_of d'). 0 < snd kq"
    proof cases
      case 1
      with assms(2) show ?thesis unfolding quantities_positive_def by blast
    next
      case 2
      then show ?thesis using update_positive [OF e True] by simp
    next
      case 3
      have "\<forall>kq \<in> set (DAList.impl_of d). 0 < snd kq"
        using 3 assms(2) unfolding quantities_positive_def by blast
      then show ?thesis using update_positive [OF _ True] 3 by simp
    qed
  qed
qed

lemma clear_cart_positive:
  assumes "quantities_positive s"
  shows "quantities_positive (snd (clear_cart u s))"
  unfolding quantities_positive_def
proof (intro allI impI)
  fix v r d'
  assume a: "carts (snd (clear_cart u s)) v = Some r"
    and b: "items (heap (snd (clear_cart u s)) r) = Some d'"
  from clear_cart_frame [OF a b] assms
  show "\<forall>kq \<in> set (DAList.impl_of d'). 0 < snd kq"
    unfolding quantities_positive_def by blast
qed

text \<open>
  Claim C4, amended: from a state in which every stored quantity is positive,
  \<^verbatim>\<open>update_quantity\<close>, \<^verbatim>\<open>remove_item\<close> and \<^verbatim>\<open>clear_cart\<close> lead to such a state, and
  so does \<^verbatim>\<open>add_item\<close> when its quantity is positive.
\<close>
theorem quantities_positive_preserved:
  assumes "allocated s" "quantities_positive s"
  shows "(0 < q \<longrightarrow> quantities_positive (snd (add_item cap clk u i q s)))
       \<and> quantities_positive (snd (update_quantity clk u i q s))
       \<and> quantities_positive (snd (remove_item clk u i s))
       \<and> quantities_positive (snd (clear_cart u s))"
  using assms
  by (simp add: add_item_positive update_quantity_positive remove_item_positive clear_cart_positive)

theorem quantities_positive_preserved_witness:
  "allocated cart_a2_b1 \<and> quantities_positive cart_a2_b1 \<and> (0::int) < 3
   \<and> quantities_positive (snd (add_item 50 clock0 1 ''a'' 3 cart_a2_b1))
   \<and> quantities_positive (snd (update_quantity clock0 1 ''a'' 3 cart_a2_b1))
   \<and> quantities_positive (snd (remove_item clock0 1 ''a'' cart_a2_b1))
   \<and> quantities_positive (snd (clear_cart 1 cart_a2_b1))"
proof -
  have h1: "allocated cart_a2_b1"
    by (simp add: allocated_def cart_ops examples dict_ops Let_def)
  have h2: "quantities_positive cart_a2_b1"
    by (simp add: quantities_positive_def cart_ops examples dict_ops Let_def)
  show ?thesis
    using h1 h2 quantities_positive_preserved [OF h1 h2, where q = 3 and cap = 50 and clk = clock0 and u = 1 and i = "''a''"]
    by simp
qed

subsection \<open>The capacity bound\<close>

text \<open>
  Claim C5, as stated: no operation takes a cart above \<^verbatim>\<open>MAX_CART_ITEMS\<close> keys, and
  \<^verbatim>\<open>update_quantity\<close> cannot add a key. With capacity 2 and the cart
  \<^verbatim>\<open>{a: 1, b: 1}\<close>, \<^verbatim>\<open>update_quantity(1, 'c', 1)\<close> returns \<^verbatim>\<open>True\<close> and the cart has
  three keys afterwards: the assignment of line 96 inserts a key that is not there.
\<close>
theorem update_quantity_adds_key_over_capacity:
  "within_capacity 2 cart_full
   \<and> DAList.lookup (cart_items clock0 1 cart_full) ''c'' = None
   \<and> len (cart_items clock0 1 cart_full) = 2
   \<and> fst (update_quantity clock0 1 ''c'' 1 cart_full) = True
   \<and> len (cart_items clock0 1 (snd (update_quantity clock0 1 ''c'' 1 cart_full))) = 3
   \<and> \<not> within_capacity 2 (snd (update_quantity clock0 1 ''c'' 1 cart_full))"
proof -
  let ?s = "snd (update_quantity clock0 1 ''c'' 1 cart_full)"
  have w: "within_capacity 2 cart_full"
    by (simp add: within_capacity_def cart_ops examples dict_ops Let_def)
  have c: "carts ?s 1 = Some 0"
    by (simp add: cart_ops examples dict_ops Let_def)
  have h: "items (heap ?s 0) =
      Some (DAList.update ''c'' 1 (DAList.update ''b'' 1 (DAList.update ''a'' 1 DAList.empty)))"
    by (simp add: cart_ops examples dict_ops Let_def)
  have n: "\<not> within_capacity 2 ?s"
  proof
    assume "within_capacity 2 ?s"
    with c h have "len (DAList.update ''c'' 1 (DAList.update ''b'' 1
        (DAList.update ''a'' 1 DAList.empty))) \<le> 2"
      unfolding within_capacity_def by blast
    then show False by (simp add: len_def dict_ops)
  qed
  have rest: "DAList.lookup (cart_items clock0 1 cart_full) ''c'' = None
   \<and> len (cart_items clock0 1 cart_full) = 2
   \<and> fst (update_quantity clock0 1 ''c'' 1 cart_full) = True
   \<and> len (cart_items clock0 1 ?s) = 3"
    by (simp add: cart_ops examples dict_ops Let_def)
  from w rest n show ?thesis by simp
qed

lemma add_item_within:
  assumes "allocated s" "within_capacity cap s" "fst (add_item cap clk u i q s)"
  shows "within_capacity cap (snd (add_item cap clk u i q s))"
  unfolding within_capacity_def
proof (intro allI impI)
  fix v r d'
  assume a: "carts (snd (add_item cap clk u i q s)) v = Some r"
    and b: "items (heap (snd (add_item cap clk u i q s)) r) = Some d'"
  from add_item_frame [OF assms(1) a b] assms(2,3)
  show "len d' \<le> cap"
    unfolding within_capacity_def by blast
qed

lemma remove_item_within:
  assumes "allocated s" "within_capacity cap s"
  shows "within_capacity cap (snd (remove_item clk u i s))"
  unfolding within_capacity_def
proof (intro allI impI)
  fix v r d'
  assume a: "carts (snd (remove_item clk u i s)) v = Some r"
    and b: "items (heap (snd (remove_item clk u i s)) r) = Some d'"
  from remove_item_frame [OF assms(1) a b]
  show "len d' \<le> cap"
  proof
    assume "carts s v = Some r \<and> items (heap s r) = Some d'"
    with assms(2) show ?thesis unfolding within_capacity_def by blast
  next
    assume "\<exists>r0 d. carts s u = Some r0 \<and> items (heap s r0) = Some d \<and> d' = DAList.delete i d"
    then obtain r0 d where d: "carts s u = Some r0" "items (heap s r0) = Some d"
      and d': "d' = DAList.delete i d" by blast
    have "len d \<le> cap"
      using d assms(2) unfolding within_capacity_def by blast
    then show ?thesis using len_delete [of i d] d' by simp
  qed
qed

lemma update_quantity_within:
  assumes "allocated s" "within_capacity cap s"
    and "q \<le> 0 \<or> DAList.lookup (cart_items clk0 u s) i \<noteq> None"
  shows "within_capacity cap (snd (update_quantity clk u i q s))"
proof (cases "0 < q")
  case False
  then show ?thesis using assms by (simp add: update_quantity_def remove_item_within)
next
  case True
  with assms(3) have present: "DAList.lookup (cart_items clk0 u s) i \<noteq> None" by simp
  show ?thesis
    unfolding within_capacity_def
  proof (intro allI impI)
    fix v r d'
    assume a: "carts (snd (update_quantity clk u i q s)) v = Some r"
      and b: "items (heap (snd (update_quantity clk u i q s)) r) = Some d'"
    from update_quantity_frame [OF assms(1) True a b]
    consider "carts s v = Some r \<and> items (heap s r) = Some d'"
      | "carts s u = None"
      | r0 d where "carts s u = Some r0" "items (heap s r0) = Some d" "d' = DAList.update i q d"
      by auto
    then show "len d' \<le> cap"
    proof cases
      case 1
      with assms(2) show ?thesis unfolding within_capacity_def by blast
    next
      case 2
      with present show ?thesis by (simp add: cart_items_absent)
    next
      case 3
      from 3(1) assms(1) have "r0 < next_ref s" by (simp add: allocated_def)
      with 3 have "cart_items clk0 u s = d" by (simp add: cart_items_stored)
      with present have "len (DAList.update i q d) = len d" by (simp add: len_update)
      moreover have "len d \<le> cap"
        using 3 assms(2) unfolding within_capacity_def by blast
      ultimately show ?thesis using 3 by simp
    qed
  qed
qed

lemma clear_cart_within:
  assumes "within_capacity cap s"
  shows "within_capacity cap (snd (clear_cart u s))"
  unfolding within_capacity_def
proof (intro allI impI)
  fix v r d'
  assume a: "carts (snd (clear_cart u s)) v = Some r"
    and b: "items (heap (snd (clear_cart u s)) r) = Some d'"
  from clear_cart_frame [OF a b] assms
  show "len d' \<le> cap"
    unfolding within_capacity_def by blast
qed

lemma update_quantity_count:
  assumes "allocated s"
    and "q \<le> 0 \<or> DAList.lookup (cart_items clk0 u s) i \<noteq> None"
  shows "len (cart_items clk' u (snd (update_quantity clk u i q s))) \<le> len (cart_items clk0 u s)"
proof (cases "0 < q")
  case False
  then show ?thesis
    using len_delete [of i "cart_items clk0 u s"]
    by (simp add: update_quantity_def remove_item_cart_items [OF assms(1), where ?clk0.0 = clk0])
next
  case True
  with assms(2) have present: "DAList.lookup (cart_items clk0 u s) i \<noteq> None" by simp
  then obtain r where r: "carts s u = Some r"
    by (cases "carts s u") (auto simp: cart_items_absent)
  with assms(1) have lt: "r < next_ref s" by (simp add: allocated_def)
  have "items (heap s r) \<noteq> None"
    using present r lt by (cases "items (heap s r)") (auto simp: cart_items_stored)
  with r have "\<forall>r. carts s u = Some r \<longrightarrow> items (heap s r) \<noteq> None" by simp
  from update_quantity_cart_items [OF assms(1) True this, where ?clk0.0 = clk0]
  show ?thesis using present by (simp add: len_update)
qed

text \<open>
  Claim C5, amended: from a state in which every stored cart has at most
  \<^verbatim>\<open>MAX_CART_ITEMS\<close> keys, the bound still holds after an \<^verbatim>\<open>add_item\<close> that returns
  \<^verbatim>\<open>True\<close>, after \<^verbatim>\<open>remove_item\<close>, after \<^verbatim>\<open>clear_cart\<close>, and after an
  \<^verbatim>\<open>update_quantity\<close> whose quantity is not positive or whose item is already in the
  cart; such an \<^verbatim>\<open>update_quantity\<close> does not raise the number of keys of the cart.
\<close>
theorem within_capacity_preserved:
  assumes "allocated s" "within_capacity cap s"
  shows "(fst (add_item cap clk u i q s) \<longrightarrow>
            within_capacity cap (snd (add_item cap clk u i q s)))
       \<and> (q \<le> 0 \<or> DAList.lookup (cart_items clk0 u s) i \<noteq> None \<longrightarrow>
            within_capacity cap (snd (update_quantity clk u i q s))
            \<and> len (cart_items clk' u (snd (update_quantity clk u i q s)))
                \<le> len (cart_items clk0 u s))
       \<and> within_capacity cap (snd (remove_item clk u i s))
       \<and> within_capacity cap (snd (clear_cart u s))"
  using assms
  by (simp add: add_item_within update_quantity_within update_quantity_count
      remove_item_within clear_cart_within)

theorem within_capacity_preserved_witness:
  "allocated cart_full \<and> within_capacity 2 cart_full
   \<and> fst (add_item 2 clock0 1 ''a'' 1 cart_full)
   \<and> within_capacity 2 (snd (add_item 2 clock0 1 ''a'' 1 cart_full))
   \<and> DAList.lookup (cart_items clock0 1 cart_full) ''a'' \<noteq> None
   \<and> within_capacity 2 (snd (update_quantity clock0 1 ''a'' 1 cart_full))
   \<and> len (cart_items clock0 1 (snd (update_quantity clock0 1 ''a'' 1 cart_full)))
       \<le> len (cart_items clock0 1 cart_full)
   \<and> within_capacity 2 (snd (remove_item clock0 1 ''a'' cart_full))
   \<and> within_capacity 2 (snd (clear_cart 1 cart_full))"
proof -
  have h1: "allocated cart_full"
    by (simp add: allocated_def cart_ops examples dict_ops Let_def)
  have h2: "within_capacity 2 cart_full"
    by (simp add: within_capacity_def cart_ops examples dict_ops Let_def)
  have h3: "fst (add_item 2 clock0 1 ''a'' 1 cart_full)"
    by (simp add: cart_ops examples dict_ops Let_def)
  have h4: "DAList.lookup (cart_items clock0 1 cart_full) ''a'' \<noteq> None"
    by (simp add: cart_ops examples dict_ops Let_def)
  show ?thesis
    using h1 h2 h3 h4
      within_capacity_preserved [OF h1 h2, where q = 1 and clk = clock0 and u = 1 and i = "''a''"
          and ?clk0.0 = clock0 and clk' = clock0]
    by simp
qed

subsection \<open>Setting a quantity\<close>

text \<open>
  Claim C8: \<^verbatim>\<open>update_quantity(u, i, q)\<close> with \<open>q \<le> 0\<close> is \<^verbatim>\<open>remove_item(u, i)\<close>, it
  leaves no entry for \<open>i\<close>, and \<^verbatim>\<open>get_item_quantity(u, i)\<close> is 0 afterwards; with
  \<open>q > 0\<close> the quantity read back is \<open>q\<close>. The stored carts are the ones the store
  builds: allocated objects that have the key \<^verbatim>\<open>'items'\<close>.
\<close>
theorem update_quantity_sets_or_removes:
  assumes "allocated s" "has_items s"
  shows "(q \<le> 0 \<longrightarrow>
            update_quantity clk u i q s = remove_item clk u i s
            \<and> DAList.lookup (cart_items clk' u (snd (update_quantity clk u i q s))) i = None
            \<and> get_item_quantity clk' u i (snd (update_quantity clk u i q s)) = 0)
       \<and> (0 < q \<longrightarrow>
            get_item_quantity clk' u i (snd (update_quantity clk u i q s)) = q)"
proof (intro conjI impI)
  assume "q \<le> 0"
  then show eq: "update_quantity clk u i q s = remove_item clk u i s"
    by (simp add: update_quantity_def)
  show l: "DAList.lookup (cart_items clk' u (snd (update_quantity clk u i q s))) i = None"
    by (simp add: eq remove_item_cart_items [OF assms(1), where ?clk0.0 = clk'])
  show "get_item_quantity clk' u i (snd (update_quantity clk u i q s)) = 0"
    by (simp add: get_item_quantity_def l)
next
  assume pos: "0 < q"
  have "\<forall>r. carts s u = Some r \<longrightarrow> items (heap s r) \<noteq> None"
    using assms(2) by (simp add: has_items_def)
  from update_quantity_cart_items [OF assms(1) pos this, where ?clk0.0 = clk']
  show "get_item_quantity clk' u i (snd (update_quantity clk u i q s)) = q"
    by (simp add: get_item_quantity_def)
qed

theorem update_quantity_sets_or_removes_witness:
  "allocated cart_a2_b1 \<and> has_items cart_a2_b1
   \<and> update_quantity clock0 1 ''a'' 0 cart_a2_b1 = remove_item clock0 1 ''a'' cart_a2_b1
   \<and> DAList.lookup (cart_items clock0 1 (snd (update_quantity clock0 1 ''a'' 0 cart_a2_b1))) ''a''
       = None
   \<and> get_item_quantity clock0 1 ''a'' (snd (update_quantity clock0 1 ''a'' 0 cart_a2_b1)) = 0
   \<and> get_item_quantity clock0 1 ''a'' (snd (update_quantity clock0 1 ''a'' 7 cart_a2_b1)) = 7"
proof -
  have h1: "allocated cart_a2_b1"
    by (simp add: allocated_def cart_ops examples dict_ops Let_def)
  have h2: "has_items cart_a2_b1"
    by (simp add: has_items_def cart_ops examples dict_ops Let_def)
  have a: "update_quantity clock0 1 ''a'' 0 cart_a2_b1 = remove_item clock0 1 ''a'' cart_a2_b1
   \<and> DAList.lookup (cart_items clock0 1 (snd (update_quantity clock0 1 ''a'' 0 cart_a2_b1))) ''a''
       = None
   \<and> get_item_quantity clock0 1 ''a'' (snd (update_quantity clock0 1 ''a'' 0 cart_a2_b1)) = 0"
    using update_quantity_sets_or_removes [OF h1 h2, where q = 0 and clk = clock0 and u = 1 and i = "''a''" and clk' = clock0]
      order_refl [of "0::int"]
    by blast
  have b: "get_item_quantity clock0 1 ''a'' (snd (update_quantity clock0 1 ''a'' 7 cart_a2_b1)) = 7"
    using update_quantity_sets_or_removes [OF h1 h2, where q = 7 and clk = clock0 and u = 1 and i = "''a''" and clk' = clock0]
    by simp
  show ?thesis
    using h1 h2 a b by blast
qed

subsection \<open>No cart and an empty cart\<close>

text \<open>
  Claim C9: a user without a stored cart and a user whose stored cart has an empty items
  dict get the same answers from every read: the items of \<^verbatim>\<open>get_cart\<close>,
  \<^verbatim>\<open>get_item_quantity\<close>, \<^verbatim>\<open>get_cart_total\<close>, \<^verbatim>\<open>get_cart_item_count\<close> and
  \<^verbatim>\<open>is_cart_empty\<close>.
\<close>
theorem no_cart_reads_like_empty_cart:
  assumes "carts s u = None"
    and "allocated s'" "carts s' u = Some r" "items (heap s' r) = Some DAList.empty"
  shows "items (heap (snd (get_cart clk u s)) (fst (get_cart clk u s)))
           = items (heap (snd (get_cart clk' u s')) (fst (get_cart clk' u s')))
       \<and> get_item_quantity clk u i s = get_item_quantity clk' u i s'
       \<and> get_cart_total fl clk u menu s = get_cart_total fl clk' u menu s'
       \<and> get_cart_item_count clk u s = get_cart_item_count clk' u s'
       \<and> is_cart_empty clk u s = is_cart_empty clk' u s'"
proof -
  from assms(2,3) have lt: "r < next_ref s'" by (simp add: allocated_def)
  have a: "cart_items clk u s = DAList.empty"
    using assms(1) by (rule cart_items_absent)
  have b: "cart_items clk' u s' = DAList.empty"
    using assms(3,4) lt by (simp add: cart_items_stored)
  have g: "items (heap (snd (get_cart clk u s)) (fst (get_cart clk u s)))
           = items (heap (snd (get_cart clk' u s')) (fst (get_cart clk' u s')))"
    using assms(1,3,4) lt by (simp add: get_cart_fst get_cart_snd default_cart_def)
  show ?thesis
    using g by (simp add: a b get_item_quantity_def get_cart_total_def get_cart_item_count_def
        is_cart_empty_def)
qed

theorem no_cart_reads_like_empty_cart_witness:
  "carts init_state 1 = None \<and> allocated cart_drained \<and> carts cart_drained 1 = Some 0
   \<and> items (heap cart_drained 0) = Some DAList.empty
   \<and> items (heap (snd (get_cart clock0 1 init_state)) (fst (get_cart clock0 1 init_state)))
           = items (heap (snd (get_cart clock0 1 cart_drained)) (fst (get_cart clock0 1 cart_drained)))
   \<and> get_item_quantity clock0 1 ''a'' init_state = get_item_quantity clock0 1 ''a'' cart_drained
   \<and> get_cart_total float0 clock0 1 menu_by_id init_state
       = get_cart_total float0 clock0 1 menu_by_id cart_drained
   \<and> get_cart_item_count clock0 1 init_state = get_cart_item_count clock0 1 cart_drained
   \<and> is_cart_empty clock0 1 init_state = is_cart_empty clock0 1 cart_drained"
proof -
  have h1: "carts init_state 1 = None" by (simp add: init_state_def)
  have h2: "allocated cart_drained"
    by (simp add: allocated_def cart_ops examples dict_ops Let_def)
  have h3: "carts cart_drained 1 = Some 0"
    by (simp add: cart_ops examples dict_ops Let_def)
  have h4: "items (heap cart_drained 0) = Some DAList.empty"
    by (simp add: cart_ops examples dict_ops Let_def alist_eq_iff)
  show ?thesis
    using h1 h2 h3 h4
      no_cart_reads_like_empty_cart [OF h1 h2 h3 h4, where clk = clock0 and clk' = clock0 and i = "''a''"
          and fl = float0 and menu = menu_by_id]
    by simp
qed

subsection \<open>A drained cart stays in the store\<close>

text \<open>
  Claim C10: when \<^verbatim>\<open>remove_item\<close> deletes the only entry of a cart, the user keeps a
  stored cart, now with empty items, so \<^verbatim>\<open>clear_cart\<close> for that user returns
  \<^verbatim>\<open>True\<close>; for a user without a stored cart \<^verbatim>\<open>clear_cart\<close> returns \<^verbatim>\<open>False\<close>.
\<close>
theorem drained_cart_stays_stored:
  assumes "allocated s" "DAList.impl_of (cart_items clk0 u s) = [(i, q)]" "carts s v = None"
  shows "fst (remove_item clk u i s)
       \<and> carts (snd (remove_item clk u i s)) u \<noteq> None
       \<and> cart_items clk' u (snd (remove_item clk u i s)) = DAList.empty
       \<and> fst (clear_cart u (snd (remove_item clk u i s)))
       \<and> \<not> fst (clear_cart v s)"
proof -
  obtain r where r: "carts s u = Some r"
    using assms(2) by (cases "carts s u") (auto simp: cart_items_absent dict_ops)
  with assms(1) have lt: "r < next_ref s" by (simp add: allocated_def)
  obtain d where d: "items (heap s r) = Some d"
    using assms(2) r lt by (cases "items (heap s r)") (auto simp: cart_items_stored dict_ops)
  with r lt have ci: "cart_items clk0 u s = d" by (simp add: cart_items_stored)
  with assms(2) have present: "DAList.lookup d i \<noteq> None" by (simp add: dict_ops)
  have f: "fst (remove_item clk u i s)"
    using r lt d present by (simp add: remove_item_stored Let_def)
  then have k: "carts (snd (remove_item clk u i s)) u \<noteq> None"
    by (simp add: remove_item_carts)
  have e: "cart_items clk' u (snd (remove_item clk u i s)) = DAList.empty"
    using assms(2)
    by (simp add: remove_item_cart_items [OF assms(1), where ?clk0.0 = clk0] alist_eq_iff dict_ops)
  show ?thesis
    using f k e assms(3) by (simp add: clear_cart_def)
qed

theorem drained_cart_stays_stored_witness:
  "allocated cart_a1 \<and> DAList.impl_of (cart_items clock0 1 cart_a1) = [(''a'', 1)]
   \<and> carts cart_a1 2 = None
   \<and> fst (remove_item clock0 1 ''a'' cart_a1)
   \<and> carts (snd (remove_item clock0 1 ''a'' cart_a1)) 1 \<noteq> None
   \<and> cart_items clock0 1 (snd (remove_item clock0 1 ''a'' cart_a1)) = DAList.empty
   \<and> fst (clear_cart 1 (snd (remove_item clock0 1 ''a'' cart_a1)))
   \<and> \<not> fst (clear_cart 2 cart_a1)"
proof -
  have h1: "allocated cart_a1"
    by (simp add: allocated_def cart_ops examples dict_ops Let_def)
  have h2: "DAList.impl_of (cart_items clock0 1 cart_a1) = [(''a'', 1)]"
    by (simp add: cart_ops examples dict_ops Let_def)
  have h3: "carts cart_a1 2 = None"
    by (simp add: cart_ops examples dict_ops Let_def)
  show ?thesis
    using h1 h2 h3
      drained_cart_stays_stored [OF h1 h2 h3, where clk = clock0 and clk' = clock0]
    by simp
qed

end
